theory Spec2Isabelle
  imports Main
begin

section \<open>Go runtime: panics, results, string functions\<close>

text \<open>
  A Go function of the router either returns or panics. The panics that the router
  code can raise are listed; \<open>Inl\<close> carries the panic, \<open>Inr\<close> the returned value.
\<close>

datatype panic =
    IndexOutOfRange          \<comment> \<open>\<open>s[i]\<close> or \<open>xs[i]\<close> with \<open>i\<close> beyond the length\<close>
  | SliceBoundsOutOfRange    \<comment> \<open>\<open>s[1:]\<close> on the empty string\<close>
  | RegexpCompile            \<comment> \<open>\<open>regexp.MustCompile\<close> on an invalid expression\<close>
  | InvalidMethod            \<comment> \<open>\<open>panic("invalid method: " + method)\<close>\<close>
  | NilPointer               \<comment> \<open>a field read through a \<open>nil\<close> pointer\<close>

type_synonym 'a go = "panic + 'a"

text \<open>\<open>strings.Split(s, sep)\<close> for a one-byte separator: never empty, \<open>Split("", sep) = [""]\<close>.\<close>

fun Split :: "string \<Rightarrow> char \<Rightarrow> string list" where
  "Split [] sep = [[]]"
| "Split (c # cs) sep =
     (if c = sep then [] # Split cs sep
      else (case Split cs sep of
              [] \<Rightarrow> [[c]]
            | w # ws \<Rightarrow> (c # w) # ws))"

text \<open>\<open>strings.Join(xs, sep)\<close>.\<close>

fun Join :: "string list \<Rightarrow> string \<Rightarrow> string" where
  "Join [] sep = []"
| "Join [x] sep = x"
| "Join (x # y # ys) sep = x @ sep @ Join (y # ys) sep"

text \<open>\<open>strings.HasSuffix(s, "/")\<close>.\<close>

definition HasSuffixSlash :: "string \<Rightarrow> bool" where
  "HasSuffixSlash s = (s \<noteq> [] \<and> last s = CHR ''/'')"

section \<open>tree.go\<close>

text \<open>\<open>trimPathPrefix\<close>: \<open>strings.TrimPrefix(pattern, "/")\<close>.\<close>

fun trimPathPrefix :: "string \<Rightarrow> string" where
  "trimPathPrefix [] = []"
| "trimPathPrefix (c # cs) = (if c = CHR ''/'' then cs else c # cs)"

text \<open>\<open>splitPattern\<close>: \<open>strings.Split(pattern, "/")\<close>.\<close>

definition splitPattern :: "string \<Rightarrow> string list" where
  "splitPattern pattern = Split pattern CHR ''/''"

text \<open>
  \<open>Parameters\<close>, \<open>Node\<close> and \<open>Tree\<close>. A node's \<open>children\<close> map is keyed by the child's own
  \<open>key\<close> (\<open>currNode.children[key] = NewNode(key, ...)\<close> is its only write), so it is kept as
  the list of children in insertion order, looked up by key. Go iterates a map in an
  unspecified order; the list fixes insertion order for that iteration.
  The type parameters are \<open>http.HandlerFunc\<close> and \<open>Middleware\<close>.
\<close>

record Parameters =
  routeName :: string

datatype ('h, 'm) Node = Node
  (key: string)
  (path: string)
  (handle: "'h option")
  (depth: int)
  (children: "('h, 'm) Node list")
  (isEnd: bool)
  (middleware: "'m list")

text \<open>\<open>node.children[k]\<close> with its \<open>ok\<close> flag.\<close>

fun child :: "('h, 'm) Node list \<Rightarrow> string \<Rightarrow> ('h, 'm) Node option" where
  "child [] k = None"
| "child (c # cs) k = (if key c = k then Some c else child cs k)"

text \<open>\<open>node.children[k] = n\<close>: replaces the entry for \<open>k\<close>, or adds one.\<close>

fun set_child :: "('h, 'm) Node list \<Rightarrow> string \<Rightarrow> ('h, 'm) Node \<Rightarrow> ('h, 'm) Node list" where
  "set_child [] k n = [n]"
| "set_child (c # cs) k n = (if key c = k then n # cs else c # set_child cs k n)"

text \<open>
  A \<open>*Node\<close> held outside the trie (the values of \<open>Tree.routes\<close>) is the position of the
  node: the keys on the way from the root. Nodes are never removed or moved, so a
  position keeps denoting the same node, and reading through it sees later writes.
\<close>

type_synonym NodeRef = "string list"

fun deref :: "('h, 'm) Node \<Rightarrow> NodeRef \<Rightarrow> ('h, 'm) Node option" where
  "deref n [] = Some n"
| "deref n (k # ks) = (case child (children n) k of None \<Rightarrow> None | Some c \<Rightarrow> deref c ks)"

record ('h, 'm) Tree =
  root :: "('h, 'm) Node"
  parameters :: Parameters
  routes :: "string \<rightharpoonup> NodeRef"

definition NewNode :: "string \<Rightarrow> int \<Rightarrow> ('h, 'm) Node" where
  "NewNode k d = Node k [] None d [] False []"

definition NewTree :: "('h, 'm) Tree" where
  "NewTree = \<lparr> root = NewNode ''/'' 1, parameters = \<lparr> routeName = [] \<rparr>, routes = Map.empty \<rparr>"

text \<open>
  \<open>Register\<close>, the part after the descent: on the node reached, middleware is appended
  when the node has depth 1, then \<open>handle\<close>, \<open>isEnd\<close> and \<open>path\<close> are set.
\<close>

definition finish :: "string \<Rightarrow> 'h \<Rightarrow> 'm list \<Rightarrow> ('h, 'm) Node \<Rightarrow> ('h, 'm) Node" where
  "finish pattern h mw n =
     Node (key n) pattern (Some h) (depth n) (children n) True
          (if length mw > 0 \<and> depth n = 1 then middleware n @ mw else middleware n)"

text \<open>
  \<open>Register\<close>, the loop over \<open>keyList\<close>: a missing child is created with the middleware of
  this registration, an existing one is entered as it is.
\<close>

fun descend_reg :: "string list \<Rightarrow> string \<Rightarrow> 'h \<Rightarrow> 'm list \<Rightarrow> ('h, 'm) Node \<Rightarrow> ('h, 'm) Node" where
  "descend_reg [] pattern h mw n = finish pattern h mw n"
| "descend_reg (k # ks) pattern h mw n =
     (let node = (case child (children n) k of
                    Some c \<Rightarrow> c
                  | None \<Rightarrow>
                      (let fresh = NewNode k (depth n + 1)
                       in if length mw > 0
                          then Node (key fresh) (path fresh) (handle fresh) (depth fresh)
                                 (children fresh) (isEnd fresh) (middleware fresh @ mw)
                          else fresh))
      in Node (key n) (path n) (handle n) (depth n)
           (set_child (children n) k (descend_reg ks pattern h mw node))
           (isEnd n) (middleware n))"

definition Register :: "('h, 'm) Tree \<Rightarrow> string \<Rightarrow> 'h \<Rightarrow> 'm list \<Rightarrow> ('h, 'm) Tree" where
  "Register t pattern h mw =
     (let (pattern', ref) =
            (if pattern \<noteq> key (root t)
             then (trimPathPrefix pattern, splitPattern (trimPathPrefix pattern))
             else (pattern, []));
          t' = t \<lparr> root := descend_reg ref pattern' h mw (root t) \<rparr>
      in if routeName (parameters t) \<noteq> []
         then t' \<lparr> routes := (routes t)(routeName (parameters t) \<mapsto> ref) \<rparr>
         else t')"

text \<open>
  \<open>Search\<close>, the final loop: level by level, the nodes of the queue that are ends are
  appended to the result and the queue is replaced by the children of its nodes.
\<close>

function collect :: "('h, 'm) Node list \<Rightarrow> ('h, 'm) Node list" where
  "collect queue =
     (if queue = [] then []
      else filter isEnd queue @ collect (concat (map children queue)))"
  by pat_completeness auto
termination
proof (relation "measure (\<lambda>q. sum_list (map size q))")
  show "wf (measure (\<lambda>q :: ('h, 'm) Node list. sum_list (map size q)))"
    by simp
next
  fix queue :: "('h, 'm) Node list"
  assume nonempty: "queue \<noteq> []"
  have below: "sum_list (map size (children n)) < size n" for n :: "('h, 'm) Node"
    by (cases n) (simp add: size_list_conv_sum_list)
  have level: "sum_list (map size (concat (map children q))) \<le> sum_list (map size q)"
    for q :: "('h, 'm) Node list"
  proof (induction q)
    case Nil
    show ?case by simp
  next
    case (Cons a q)
    then show ?case using below [of a] by simp
  qed
  obtain a q where q: "queue = a # q"
    using nonempty by (cases queue) auto
  have "sum_list (map size (concat (map children queue))) < sum_list (map size queue)"
    using below [of a] level [of q] by (simp add: q)
  then show "(concat (map children queue), queue) \<in> measure (\<lambda>q. sum_list (map size q))"
    by simp
qed

text \<open>
  \<open>Search\<close>, the loop over \<open>keyList\<close>. A missing child ends the descent: in regex mode
  the loop is left (\<open>break\<close>) and the collection starts from the node reached, otherwise
  the empty result is returned. In exact mode a child whose \<open>path\<close> is the pattern is
  returned alone. When the keys run out the collection starts from the node reached,
  in both modes.
\<close>

fun descend :: "('h, 'm) Node \<Rightarrow> string list \<Rightarrow> string \<Rightarrow> bool \<Rightarrow> ('h, 'm) Node list" where
  "descend node [] pattern isRegex = collect [node]"
| "descend node (k # ks) pattern isRegex =
     (case child (children node) k of
        None \<Rightarrow> (if isRegex then collect [node] else [])
      | Some c \<Rightarrow>
          (if pattern = path c \<and> \<not> isRegex then [c]
           else descend c ks pattern isRegex))"

definition Search :: "('h, 'm) Tree \<Rightarrow> string \<Rightarrow> bool \<Rightarrow> ('h, 'm) Node list" where
  "Search t pattern isRegex =
     (if pattern = path (root t) then [root t]
      else (let pattern' = (if \<not> isRegex then trimPathPrefix pattern else pattern)
            in descend (root t) (splitPattern pattern') pattern' isRegex))"

section \<open>The regexp package\<close>

text \<open>
  The router uses three functions of Go's \<open>regexp\<close>: \<open>MustCompile\<close>, \<open>Find\<close> and
  \<open>FindSubmatch\<close>. A compiled expression is its \<open>FindSubmatch\<close>: \<open>None\<close> for no match,
  otherwise the text of the leftmost match and the texts of its capture groups. The
  package is its \<open>MustCompile\<close>, with \<open>None\<close> where it panics. The router's functions
  take the package as their first argument, so that what is proved of them for every
  package holds for Go's.
\<close>

type_synonym Regexp = "string \<Rightarrow> (string \<times> string list) option"
type_synonym regexp_pkg = "string \<Rightarrow> Regexp option"

text \<open>\<open>regex.Find(b)\<close>: the text of the leftmost match, \<open>nil\<close> when there is none.\<close>

definition Find :: "Regexp \<Rightarrow> string \<Rightarrow> string option" where
  "Find regex b = map_option fst (regex b)"

text \<open>
  \<open>go_regexp\<close> is the package on the expressions that the routes of this development
  compile to: literal characters, the escapes \<open>\w\<close> and \<open>\d\<close>, escaped
  punctuation, bracket lists of these, the greedy repetitions \<open>+\<close> and \<open>*\<close> of one
  character, and capture groups that are neither nested nor repeated. On ASCII text
  Go's leftmost-first search gives, for such an expression, the first match of a
  backtracking search that tries longer repetitions first, as below. Any other
  expression is answered with \<open>None\<close>; the closed theorems below evaluate
  \<open>go_regexp\<close> on expressions of this kind only.
\<close>

datatype citem = ILit char | IWord | IDigit

datatype cclass = One citem | Set "citem list"

datatype inst = Open | Close | Single cclass | Repeat cclass nat

definition is_digit :: "char \<Rightarrow> bool" where
  "is_digit c = (let n = (of_char c :: nat) in 48 \<le> n \<and> n \<le> 57)"

definition is_alpha :: "char \<Rightarrow> bool" where
  "is_alpha c = (let n = (of_char c :: nat) in (65 \<le> n \<and> n \<le> 90) \<or> (97 \<le> n \<and> n \<le> 122))"

definition is_word :: "char \<Rightarrow> bool" where
  "is_word c = (is_digit c \<or> is_alpha c \<or> c = CHR ''_'')"

fun imatch :: "citem \<Rightarrow> char \<Rightarrow> bool" where
  "imatch (ILit c) x = (x = c)"
| "imatch IWord x = is_word x"
| "imatch IDigit x = is_digit x"

fun cmatch :: "cclass \<Rightarrow> char \<Rightarrow> bool" where
  "cmatch (One i) x = imatch i x"
| "cmatch (Set is) x = list_ex (\<lambda>i. imatch i x) is"

text \<open>An escape: \<open>\w\<close>, \<open>\d\<close>, or an ASCII character that is no letter or digit, for itself.\<close>

definition esc_item :: "char \<Rightarrow> citem option" where
  "esc_item c =
     (if c = CHR ''w'' then Some IWord
      else if c = CHR ''d'' then Some IDigit
      else if (of_char c :: nat) < 128 \<and> \<not> is_digit c \<and> \<not> is_alpha c then Some (ILit c)
      else None)"

datatype mode = Normal | Esc | Cls "citem list" | ClsEsc "citem list"

text \<open>The parser; the instructions read so far are kept in reverse.\<close>

fun parse :: "mode \<Rightarrow> bool \<Rightarrow> inst list \<Rightarrow> string \<Rightarrow> inst list option" where
  "parse Normal g acc [] = (if g then None else Some (rev acc))"
| "parse Normal g acc (c # cs) =
     (if c = CHR 0x5C then parse Esc g acc cs
      else if c = CHR ''['' then parse (Cls []) g acc cs
      else if c = CHR ''('' then (if g then None else parse Normal True (Open # acc) cs)
      else if c = CHR '')'' then (if g then parse Normal False (Close # acc) cs else None)
      else if c = CHR ''+'' then
        (case acc of Single cl # acc' \<Rightarrow> parse Normal g (Repeat cl 1 # acc') cs | _ \<Rightarrow> None)
      else if c = CHR ''*'' then
        (case acc of Single cl # acc' \<Rightarrow> parse Normal g (Repeat cl 0 # acc') cs | _ \<Rightarrow> None)
      else if c \<in> set ''.?|{}^$]'' then None
      else parse Normal g (Single (One (ILit c)) # acc) cs)"
| "parse Esc g acc [] = None"
| "parse Esc g acc (c # cs) =
     (case esc_item c of
        None \<Rightarrow> None
      | Some i \<Rightarrow> parse Normal g (Single (One i) # acc) cs)"
| "parse (Cls is) g acc [] = None"
| "parse (Cls is) g acc (c # cs) =
     (if c = CHR '']'' then
        (if is = [] then None else parse Normal g (Single (Set (rev is)) # acc) cs)
      else if c = CHR 0x5C then parse (ClsEsc is) g acc cs
      else if c \<in> set ''^-['' then None
      else parse (Cls (ILit c # is)) g acc cs)"
| "parse (ClsEsc is) g acc [] = None"
| "parse (ClsEsc is) g acc (c # cs) =
     (case esc_item c of
        None \<Rightarrow> None
      | Some i \<Rightarrow> parse (Cls (i # is)) g acc cs)"

text \<open>
  Matching at the start of the text: the result is the text taken by each instruction.
  A repetition first takes every character it can and gives them back one by one.
\<close>

fun match_here :: "inst list \<Rightarrow> string \<Rightarrow> string list option"
  and try_rep :: "inst list \<Rightarrow> string \<Rightarrow> nat \<Rightarrow> nat \<Rightarrow> string list option" where
  "match_here [] s = Some []"
| "match_here (Open # is) s = map_option (Cons []) (match_here is s)"
| "match_here (Close # is) s = map_option (Cons []) (match_here is s)"
| "match_here (Single cl # is) s =
     (case s of
        [] \<Rightarrow> None
      | x # xs \<Rightarrow> (if cmatch cl x then map_option (Cons [x]) (match_here is xs) else None))"
| "match_here (Repeat cl least # is) s =
     try_rep is s (length (takeWhile (cmatch cl) s)) least"
| "try_rep is s j least =
     (if j < least then None
      else (case match_here is (drop j s) of
              Some ps \<Rightarrow> Some (take j s # ps)
            | None \<Rightarrow> (case j of 0 \<Rightarrow> None | Suc j' \<Rightarrow> try_rep is s j' least)))"

text \<open>The texts of the capture groups, from the texts taken by the instructions.\<close>

fun groups :: "inst list \<Rightarrow> string list \<Rightarrow> string option \<Rightarrow> string list" where
  "groups (Open # is) (p # ps) cur = groups is ps (Some [])"
| "groups (Close # is) (p # ps) cur = (case cur of None \<Rightarrow> [] | Some t \<Rightarrow> [t]) @ groups is ps None"
| "groups (i # is) (p # ps) cur = groups is ps (map_option (\<lambda>t. t @ p) cur)"
| "groups is ps cur = []"

text \<open>The leftmost match: the first position of the text at which matching succeeds.\<close>

fun find_at :: "inst list \<Rightarrow> string \<Rightarrow> (string \<times> string list) option" where
  "find_at is s =
     (case match_here is s of
        Some ps \<Rightarrow> Some (concat ps, groups is ps None)
      | None \<Rightarrow> (case s of [] \<Rightarrow> None | x # xs \<Rightarrow> find_at is xs))"

definition go_regexp :: regexp_pkg where
  "go_regexp expr = map_option find_at (parse Normal False [] expr)"

section \<open>context.go\<close>

text \<open>
  Of \<open>http.Request\<close> the router reads the method and \<open>URL.Path\<close>, and it stores the route
  parameters in the request's context under \<open>contextKey\<close>: \<open>ctx\<close> is the value stored
  there, \<open>None\<close> when nothing is. A handler acts on the response writer, of type \<open>'w\<close>.
\<close>

type_synonym paramsMapType = "string \<rightharpoonup> string"

record Request =
  Method :: string
  URLPath :: string
  ctx :: "paramsMapType option"

type_synonym 'w HandlerFunc = "Request \<Rightarrow> 'w \<Rightarrow> 'w"
type_synonym 'w Middleware = "'w HandlerFunc \<Rightarrow> 'w HandlerFunc"

text \<open>\<open>m[k]\<close> on a \<open>map[string]string\<close>: the empty string for a missing key, also on \<open>nil\<close>.\<close>

definition index_map :: "paramsMapType \<Rightarrow> string \<Rightarrow> string" where
  "index_map m k = (case m k of None \<Rightarrow> [] | Some v \<Rightarrow> v)"

text \<open>\<open>GetAllParams\<close>; the \<open>nil\<close> map is the empty one.\<close>

definition GetAllParams :: "Request \<Rightarrow> paramsMapType" where
  "GetAllParams r = (case ctx r of Some values \<Rightarrow> values | None \<Rightarrow> Map.empty)"

definition GetParam :: "Request \<Rightarrow> string \<Rightarrow> string" where
  "GetParam r k = index_map (GetAllParams r) k"

section \<open>router.go\<close>

datatype error =
    ErrGenerateParameters
  | ErrRouteNotFound
  | ErrMethodNotFound
  | ErrPatternGrammar

definition defaultPattern :: string where
  "defaultPattern = ''['' @ [CHR 0x5C] @ ''w]+''"

definition idPattern :: string where
  "idPattern = ''['' @ [CHR 0x5C] @ ''d]+''"

definition idKey :: string where
  "idKey = ''id''"

definition methods :: "string set" where
  "methods = {''GET'', ''POST'', ''PUT'', ''DELETE'', ''PATCH'', ''HEAD''}"

text \<open>
  \<open>Router\<close>. The fields \<open>middleware\<close> and \<open>parameters\<close> carry the suffix \<open>_r\<close>, the
  names being those of \<open>Node\<close> and \<open>Tree\<close> fields.
\<close>

record 'w Router =
  prefix :: string
  middleware_r :: "'w Middleware list"
  trees :: "string \<rightharpoonup> ('w HandlerFunc, 'w Middleware) Tree"
  parameters_r :: Parameters
  notFound :: "'w HandlerFunc option"
  PanicHandler :: "(Request \<Rightarrow> panic \<Rightarrow> 'w \<Rightarrow> 'w) option"

definition New :: "'w Router" where
  "New = \<lparr> prefix = [], middleware_r = [], trees = Map.empty,
           parameters_r = \<lparr> routeName = [] \<rparr>, notFound = None, PanicHandler = None \<rparr>"

definition Handle :: "'w Router \<Rightarrow> string \<Rightarrow> string \<Rightarrow> 'w HandlerFunc \<Rightarrow> 'w Router go" where
  "Handle r method pth h =
     (if method \<notin> methods then Inl InvalidMethod
      else
        (let tree = (case trees r method of Some t \<Rightarrow> t | None \<Rightarrow> NewTree);
             pth' = (if prefix r \<noteq> [] then prefix r @ ''/'' @ pth else pth);
             tree' = (if routeName (parameters_r r) \<noteq> []
                      then tree \<lparr> parameters := (parameters tree)
                                     \<lparr> routeName := routeName (parameters_r r) \<rparr> \<rparr>
                      else tree)
         in Inr (r \<lparr> trees := (trees r)(method \<mapsto> Register tree' pth' h (middleware_r r)) \<rparr>)))"

definition Get :: "'w Router \<Rightarrow> string \<Rightarrow> 'w HandlerFunc \<Rightarrow> 'w Router go" where
  "Get r pth h = Handle r ''GET'' pth h"

definition Post :: "'w Router \<Rightarrow> string \<Rightarrow> 'w HandlerFunc \<Rightarrow> 'w Router go" where
  "Post r pth h = Handle r ''POST'' pth h"

definition Put :: "'w Router \<Rightarrow> string \<Rightarrow> 'w HandlerFunc \<Rightarrow> 'w Router go" where
  "Put r pth h = Handle r ''PUT'' pth h"

definition Delete :: "'w Router \<Rightarrow> string \<Rightarrow> 'w HandlerFunc \<Rightarrow> 'w Router go" where
  "Delete r pth h = Handle r ''DELETE'' pth h"

definition Patch :: "'w Router \<Rightarrow> string \<Rightarrow> 'w HandlerFunc \<Rightarrow> 'w Router go" where
  "Patch r pth h = Handle r ''PATCH'' pth h"

definition Head :: "'w Router \<Rightarrow> string \<Rightarrow> 'w HandlerFunc \<Rightarrow> 'w Router go" where
  "Head r pth h = Handle r ''HEAD'' pth h"

text \<open>\<open>r.parameters.routeName = routeName\<close>, the first statement of every \<open>...AndName\<close>.\<close>

definition name_route :: "'w Router \<Rightarrow> string \<Rightarrow> 'w Router" where
  "name_route r name = r \<lparr> parameters_r := (parameters_r r) \<lparr> routeName := name \<rparr> \<rparr>"

definition GetAndName :: "'w Router \<Rightarrow> string \<Rightarrow> 'w HandlerFunc \<Rightarrow> string \<Rightarrow> 'w Router go" where
  "GetAndName r pth h name = Get (name_route r name) pth h"

definition PostAndName :: "'w Router \<Rightarrow> string \<Rightarrow> 'w HandlerFunc \<Rightarrow> string \<Rightarrow> 'w Router go" where
  "PostAndName r pth h name = Post (name_route r name) pth h"

definition DeleteAndName :: "'w Router \<Rightarrow> string \<Rightarrow> 'w HandlerFunc \<Rightarrow> string \<Rightarrow> 'w Router go" where
  "DeleteAndName r pth h name = Delete (name_route r name) pth h"

definition PutAndName :: "'w Router \<Rightarrow> string \<Rightarrow> 'w HandlerFunc \<Rightarrow> string \<Rightarrow> 'w Router go" where
  "PutAndName r pth h name = Put (name_route r name) pth h"

definition PatchAndName :: "'w Router \<Rightarrow> string \<Rightarrow> 'w HandlerFunc \<Rightarrow> string \<Rightarrow> 'w Router go" where
  "PatchAndName r pth h name = Patch (name_route r name) pth h"

definition HEADAndName :: "'w Router \<Rightarrow> string \<Rightarrow> 'w HandlerFunc \<Rightarrow> string \<Rightarrow> 'w Router go" where
  "HEADAndName r pth h name = Head (name_route r name) pth h"

text \<open>\<open>Use\<close>.\<close>

definition Use :: "'w Router \<Rightarrow> 'w Middleware list \<Rightarrow> 'w Router" where
  "Use r mw = (if length mw > 0 then r \<lparr> middleware_r := middleware_r r @ mw \<rparr> else r)"

definition NotFoundFunc :: "'w Router \<Rightarrow> 'w HandlerFunc \<Rightarrow> 'w Router" where
  "NotFoundFunc r h = r \<lparr> notFound := Some h \<rparr>"

text \<open>
  \<open>Group\<close>. In Go the new router holds the same \<open>trees\<close> map as \<open>r\<close>; here it holds the
  map's value, and a caller that goes on using \<open>r\<close> takes the map back from the group.
\<close>

definition Group :: "'w Router \<Rightarrow> string \<Rightarrow> 'w Router" where
  "Group r pre =
     \<lparr> prefix = pre, middleware_r = middleware_r r, trees = trees r,
       parameters_r = \<lparr> routeName = [] \<rparr>, notFound = None, PanicHandler = None \<rparr>"

text \<open>
  \<open>Generate\<close>, the loop over the segments of the stored pattern. \<open>Inr (Inl e)\<close> is the
  return of the error \<open>e\<close>, \<open>Inr (Inr segments)\<close> the end of the loop.
\<close>

fun gen_segments ::
  "regexp_pkg \<Rightarrow> paramsMapType \<Rightarrow> string list \<Rightarrow> string list \<Rightarrow> (error + string list) go" where
  "gen_segments re params [] segments = Inr (Inr segments)"
| "gen_segments re params (segment # list) segments =
     (case segment of
        [] \<Rightarrow> Inl IndexOutOfRange
      | c # cs \<Rightarrow>
          (if c = CHR '':'' then
             (let k = index_map params cs
              in case re defaultPattern of
                   None \<Rightarrow> Inl RegexpCompile
                 | Some regex \<Rightarrow>
                     (if Find regex k = None then Inr (Inl ErrGenerateParameters)
                      else gen_segments re params list (segments @ [k])))
           else if c = CHR ''{'' then
             (if last segment = CHR ''}'' then
                (let splitList = Split (butlast cs) CHR '':''
                 in if length splitList < 2 then Inl IndexOutOfRange
                    else (case re (splitList ! 1) of
                            None \<Rightarrow> Inl RegexpCompile
                          | Some regex \<Rightarrow>
                              (let k = index_map params (splitList ! 0)
                               in if Find regex k = None then Inr (Inl ErrGenerateParameters)
                                  else gen_segments re params list (segments @ [k]))))
              else Inr (Inl ErrPatternGrammar))
           else if last segment = CHR ''}'' \<and> c \<noteq> CHR ''{'' then Inr (Inl ErrPatternGrammar)
           else gen_segments re params list (segments @ [segment])))"

text \<open>
  \<open>Generate\<close> returns the pair \<open>(string, error)\<close>, the error \<open>nil\<close> being \<open>None\<close>. A route
  position that denotes no node stands for a nil pointer; registration writes none.
\<close>

definition Generate ::
  "regexp_pkg \<Rightarrow> 'w Router \<Rightarrow> string \<Rightarrow> string \<Rightarrow> paramsMapType \<Rightarrow> (string \<times> error option) go" where
  "Generate re r method name params =
     (case trees r method of
        None \<Rightarrow> Inr ([], Some ErrMethodNotFound)
      | Some tree \<Rightarrow>
          (case routes tree name of
             None \<Rightarrow> Inr ([], Some ErrRouteNotFound)
           | Some ref \<Rightarrow>
               (case deref (root tree) ref of
                  None \<Rightarrow> Inl NilPointer
                | Some route \<Rightarrow>
                    (case gen_segments re params (splitPattern (path route)) [] of
                       Inl p \<Rightarrow> Inl p
                     | Inr (Inl e) \<Rightarrow> Inr ([], Some e)
                     | Inr (Inr segments) \<Rightarrow> Inr (''/'' @ Join segments ''/'', None)))))"

text \<open>\<open>handle\<close>, the function that runs the middleware chain (\<open>handle\<close> names the \<open>Node\<close> field).\<close>

definition handle_chain :: "'w \<Rightarrow> Request \<Rightarrow> 'w HandlerFunc \<Rightarrow> 'w Middleware list \<Rightarrow> 'w" where
  "handle_chain w req handler mw = (foldl (\<lambda>baseHandler m. m baseHandler) handler mw) req w"

text \<open>
  \<open>HandleNotFound\<close>. The response of \<open>http.NotFound\<close> is an argument, as the regexp
  package is.
\<close>

definition HandleNotFound ::
  "'w HandlerFunc \<Rightarrow> 'w Router \<Rightarrow> 'w \<Rightarrow> Request \<Rightarrow> 'w Middleware list \<Rightarrow> 'w" where
  "HandleNotFound http_NotFound r w req mw =
     (case notFound r of
        Some h \<Rightarrow> handle_chain w req h mw
      | None \<Rightarrow> http_NotFound req w)"

text \<open>
  \<open>matchAndParse\<close>, the loop over the segments of the stored path: it builds the list
  \<open>matchName\<close> and the expression \<open>pattern\<close>.
\<close>

fun build_pattern :: "string list \<Rightarrow> string list \<Rightarrow> string \<Rightarrow> (string list \<times> string) go" where
  "build_pattern [] matchName pattern = Inr (matchName, pattern)"
| "build_pattern (str # list) matchName pattern =
     (if str = [] then build_pattern list matchName pattern
      else if hd str = CHR ''{'' \<and> last str = CHR ''}'' then
        (let l = Split (butlast (tl str)) CHR '':''
         in if length l < 2 then Inl IndexOutOfRange
            else build_pattern list matchName (pattern @ ''/'' @ ''('' @ l ! 1 @ '')''))
      else if hd str = CHR '':'' then
        (let l = Split str CHR '':''
         in if length l < 2 then Inl IndexOutOfRange
            else if l ! 1 = idKey
              then build_pattern list (matchName @ [l ! 1]) (pattern @ ''/'' @ ''('' @ idPattern @ '')'')
              else build_pattern list (matchName @ [l ! 1]) (pattern @ ''/'' @ ''('' @ defaultPattern @ '')''))
      else build_pattern list matchName (pattern @ ''/'' @ str))"

text \<open>\<open>for k, v := range subMatch { matchParams[matchName[k]] = string(v) }\<close>.\<close>

fun bind_params :: "string list \<Rightarrow> nat \<Rightarrow> string list \<Rightarrow> paramsMapType \<Rightarrow> paramsMapType go" where
  "bind_params matchName k [] matchParams = Inr matchParams"
| "bind_params matchName k (v # vs) matchParams =
     (if k < length matchName
      then bind_params matchName (Suc k) vs (matchParams(matchName ! k \<mapsto> v))
      else Inl IndexOutOfRange)"

text \<open>
  \<open>matchAndParse\<close>. The slice \<open>subMatch[:1]\<close> is \<open>take 1\<close> of the whole match followed by
  the groups.
\<close>

definition matchAndParse :: "regexp_pkg \<Rightarrow> string \<Rightarrow> string \<Rightarrow> (paramsMapType \<times> bool) go" where
  "matchAndParse re requestURL pth =
     (case build_pattern (Split pth CHR ''/'') [] [] of
        Inl p \<Rightarrow> Inl p
      | Inr (matchName, pattern) \<Rightarrow>
          (let pattern' = (if HasSuffixSlash requestURL then pattern @ ''/'' else pattern)
           in case re pattern' of
                None \<Rightarrow> Inl RegexpCompile
              | Some regex \<Rightarrow>
                  (case regex requestURL of
                     None \<Rightarrow> Inr (Map.empty, False)
                   | Some (whole, subs) \<Rightarrow>
                       (if whole = requestURL
                        then (case bind_params matchName 0 (take 1 (whole # subs)) Map.empty of
                                Inl p \<Rightarrow> Inl p
                              | Inr matchParams \<Rightarrow> Inr (matchParams, True))
                        else Inr (Map.empty, False)))))"

definition Match :: "regexp_pkg \<Rightarrow> string \<Rightarrow> string \<Rightarrow> bool go" where
  "Match re requestURL pth = map_sum id snd (matchAndParse re requestURL pth)"

text \<open>
  \<open>ServeHTTP\<close>, the loop over the nodes of the second search: \<open>Inr (Some w)\<close> is the
  \<open>return\<close> after a handler has run, \<open>Inr None\<close> the end of the loop.
\<close>

fun try_nodes ::
  "regexp_pkg \<Rightarrow> string \<Rightarrow> Request \<Rightarrow> 'w \<Rightarrow> ('w HandlerFunc, 'w Middleware) Node list
     \<Rightarrow> 'w option go" where
  "try_nodes re requestURL req w [] = Inr None"
| "try_nodes re requestURL req w (node # nodes) =
     (case handle node of
        None \<Rightarrow> try_nodes re requestURL req w nodes
      | Some handler \<Rightarrow>
          (if path node \<noteq> requestURL then
             (case matchAndParse re requestURL (path node) of
                Inl p \<Rightarrow> Inl p
              | Inr (matchParamsMap, ok) \<Rightarrow>
                  (if ok
                   then Inr (Some (handle_chain w (req \<lparr> ctx := Some matchParamsMap \<rparr>)
                                     handler (middleware node)))
                   else try_nodes re requestURL req w nodes))
           else try_nodes re requestURL req w nodes))"

text \<open>\<open>ServeHTTP\<close> below the deferred recovery.\<close>

definition serve ::
  "regexp_pkg \<Rightarrow> 'w HandlerFunc \<Rightarrow> 'w Router \<Rightarrow> 'w \<Rightarrow> Request \<Rightarrow> 'w go" where
  "serve re http_NotFound r w req =
     (let requestURL = URLPath req
      in case trees r (Method req) of
           None \<Rightarrow> Inr (HandleNotFound http_NotFound r w req (middleware_r r))
         | Some tree \<Rightarrow>
             (let nodes = Search tree requestURL False;
                  first =
                    (if length nodes > 0 then
                       (let node = hd nodes
                        in case handle node of
                             None \<Rightarrow> Inr (w, False)
                           | Some h \<Rightarrow>
                               (if path node = requestURL
                                then Inr (handle_chain w req h (middleware node), True)
                                else if requestURL = [] then Inl SliceBoundsOutOfRange
                                else if path node = tl requestURL
                                then Inr (handle_chain w req h (middleware node), False)
                                else Inr (w, False)))
                     else Inr (w, False))
              in case first of
                   Inl p \<Rightarrow> Inl p
                 | Inr (w1, returned) \<Rightarrow>
                     (if returned then Inr w1
                      else if length nodes = 0 then
                        (let list = Split requestURL CHR ''/''
                         in if length list < 2 then Inl IndexOutOfRange
                            else (case try_nodes re requestURL req w1
                                         (Search tree (list ! 1) True) of
                                    Inl p \<Rightarrow> Inl p
                                  | Inr (Some w2) \<Rightarrow> Inr w2
                                  | Inr None \<Rightarrow> Inr (HandleNotFound http_NotFound r w1 req (middleware_r r))))
                      else Inr (HandleNotFound http_NotFound r w1 req (middleware_r r)))))"

text \<open>
  \<open>ServeHTTP\<close>: with a \<open>PanicHandler\<close> a panic is recovered and handed to it, otherwise
  it leaves \<open>ServeHTTP\<close>.
\<close>

definition ServeHTTP ::
  "regexp_pkg \<Rightarrow> 'w HandlerFunc \<Rightarrow> 'w Router \<Rightarrow> 'w \<Rightarrow> Request \<Rightarrow> 'w go" where
  "ServeHTTP re http_NotFound r w req =
     (case serve re http_NotFound r w req of
        Inr w' \<Rightarrow> Inr w'
      | Inl err \<Rightarrow>
          (case PanicHandler r of
             Some ph \<Rightarrow> Inr (ph req err w)
           | None \<Rightarrow> Inl err))"

section \<open>Specification vocabulary, probes and example routers\<close>

text \<open>The nodes that a descent along \<open>ks\<close> enters, up to the first missing child.\<close>

fun walk :: "('h, 'm) Node \<Rightarrow> string list \<Rightarrow> ('h, 'm) Node list" where
  "walk n [] = []"
| "walk n (k # ks) =
     (case child (children n) k of
        None \<Rightarrow> []
      | Some c \<Rightarrow> c # walk c ks)"

text \<open>
  A run of registrations on one router: \<open>(method, path, handler, None)\<close> is \<open>Get\<close>,
  \<open>Post\<close>, ... and \<open>(method, path, handler, Some name)\<close> is \<open>GetAndName\<close>, \<open>PostAndName\<close>, ...
\<close>

fun register_all ::
  "'w Router \<Rightarrow> (string \<times> string \<times> 'w HandlerFunc \<times> string option) list \<Rightarrow> 'w Router go" where
  "register_all r [] = Inr r"
| "register_all r ((method, pth, h, name) # regs) =
     (case Handle (case name of None \<Rightarrow> r | Some n \<Rightarrow> name_route r n) method pth h of
        Inl p \<Rightarrow> Inl p
      | Inr r' \<Rightarrow> register_all r' regs)"

text \<open>Probes: the response writer is the list of what has been written to it.\<close>

definition emit :: "string \<Rightarrow> string list HandlerFunc" where
  "emit n req w = w @ [n]"

definition wrap :: "string \<Rightarrow> string list Middleware" where
  "wrap n next req w = next req (w @ [n])"

definition param_probe :: "string list \<Rightarrow> string list HandlerFunc" where
  "param_probe ks req w = w @ map (GetParam req) ks"

definition not_found_probe :: "string list HandlerFunc" where
  "not_found_probe req w = w @ [''404 page not found'']"

definition GET :: "string \<Rightarrow> Request" where
  "GET url = \<lparr> Method = ''GET'', URLPath = url, ctx = None \<rparr>"

text \<open>The expression \<open>\w+\<close> of the repository's examples.\<close>

definition word_plus :: string where
  "word_plus = [CHR 0x5C] @ ''w+''"

definition router_profile :: "string list Router" where
  "router_profile =
     projr (GetAndName New ''/user/:user/profile'' (param_probe [''user'']) ''user_profile'')"

definition router_repos :: "string list Router" where
  "router_repos =
     projr (GetAndName New ''/repos/:owner/:repo'' (param_probe [''owner'', ''repo'']) ''repo'')"

definition router_user_id :: "string list Router" where
  "router_user_id = projr (GetAndName New ''/user/:id'' (param_probe [''id'']) ''user'')"

definition tree_ab_ac :: "(unit, unit) Tree" where
  "tree_ab_ac = Register (Register NewTree ''/a/b'' () []) ''/a/c'' () []"

text \<open>\<open>examples/url_regex/main.go\<close>.\<close>

definition router_url_regex :: "string list Router" where
  "router_url_regex =
     projr (Get New (''/user/{name:'' @ word_plus @ ''}'') (param_probe [''name'']))"

definition router_shadowed :: "string list Router" where
  "router_shadowed =
     projr (Get (projr (Get New (''/a/{x:'' @ word_plus @ ''}'') (emit ''x''))) ''/a/b/c'' (emit ''c''))"

text \<open>The registrations of the repository's example of named routes.\<close>

definition router_named :: "string list Router" where
  "router_named =
     projr (GetAndName
       (projr (GetAndName New ''/user/:user/profile'' (emit ''user_profile'') ''user_profile''))
       (''/user/{user:'' @ word_plus @ ''}/{repository:'' @ word_plus @ ''}'')
       (emit ''user_repository'') ''user_repository'')"

text \<open>Two registrations without a name after a named one.\<close>

definition router_later :: "string list Router" where
  "router_later =
     projr (register_all router_profile
       [(''GET'', ''/about'', emit ''about'', None), (''POST'', ''/users'', emit ''users'', None)])"

definition router_trailing :: "string list Router" where
  "router_trailing = projr (GetAndName New ''/user/:name/'' (param_probe [''name'']) ''user'')"

section \<open>Properties\<close>

text \<open>The equations that evaluate the router on a concrete input.\<close>

lemmas router_eval =
  GetAndName_def Get_def Handle_def name_route_def New_def methods_def NewTree_def NewNode_def
  Register_def splitPattern_def finish_def Generate_def ServeHTTP_def serve_def Search_def
  matchAndParse_def HasSuffixSlash_def idKey_def idPattern_def defaultPattern_def Find_def
  handle_chain_def HandleNotFound_def GetParam_def GetAllParams_def index_map_def

lemmas regexp_eval =
  go_regexp_def esc_item_def is_word_def is_digit_def is_alpha_def

lemmas probe_eval =
  param_probe_def not_found_probe_def emit_def wrap_def GET_def word_plus_def

text \<open>Every registration of the example routers returns.\<close>

lemma example_registrations:
  "GetAndName New ''/repos/:owner/:repo'' (param_probe [''owner'', ''repo'']) ''repo''
     = Inr router_repos"
  "GetAndName New ''/user/:id'' (param_probe [''id'']) ''user'' = Inr router_user_id"
  "Get New (''/user/{name:'' @ word_plus @ ''}'') (param_probe [''name'']) = Inr router_url_regex"
  "GetAndName New ''/user/:name/'' (param_probe [''name'']) ''user'' = Inr router_trailing"
  "isl (Get New (''/a/{x:'' @ word_plus @ ''}'') (emit ''x'')) = False"
  "Get (projr (Get New (''/a/{x:'' @ word_plus @ ''}'') (emit ''x''))) ''/a/b/c'' (emit ''c'')
     = Inr router_shadowed"
  "isl (GetAndName New ''/user/:user/profile'' (emit ''user_profile'') ''user_profile'') = False"
  "GetAndName
     (projr (GetAndName New ''/user/:user/profile'' (emit ''user_profile'') ''user_profile''))
     (''/user/{user:'' @ word_plus @ ''}/{repository:'' @ word_plus @ ''}'')
     (emit ''user_repository'') ''user_repository'' = Inr router_named"
  by (simp_all add: router_repos_def router_user_id_def router_url_regex_def router_trailing_def
        router_shadowed_def router_named_def GetAndName_def Get_def Handle_def methods_def
        Let_def)

text \<open>A router has a tree for exactly the methods that a registration was made for.\<close>

lemma trees_New: "dom (trees New) = {}"
  by (simp add: New_def)

lemma trees_Handle: "Handle r m pth h = Inr r' \<Longrightarrow> dom (trees r') = insert m (dom (trees r))"
  by (auto simp: Handle_def Let_def split: if_splits)

subsection \<open>Dispatch of a named-simple segment\<close>

text \<open>
  C1. A pattern with the named-simple segment \<open>:user\<close> is registered and a request whose
  path puts \<open>KHighness\<close> in that segment is dispatched. The registered handler runs, but
  \<open>GetParam(r, "user")\<close> inside it is the whole request path, not \<open>KHighness\<close>:
  \<open>matchAndParse\<close> keeps \<open>subMatch[:1]\<close>, the whole match, and drops the groups.
\<close>

theorem dispatch_named_simple_whole_path:
  "GetAndName New ''/user/:user/profile'' (param_probe [''user'']) ''user_profile''
     = Inr router_profile
   \<and> ServeHTTP go_regexp not_found_probe router_profile [] (GET ''/user/KHighness/profile'')
     = Inr [''/user/KHighness/profile'']"
  by (simp add: router_profile_def router_eval regexp_eval probe_eval)

subsection \<open>Generate, then dispatch\<close>

text \<open>
  C2. The route \<open>/repos/:owner/:repo\<close> is registered under the name \<open>repo\<close>. \<open>Generate\<close>
  with \<open>owner = KHighness\<close> and \<open>repo = krouter\<close> returns \<open>/repos/KHighness/krouter\<close>;
  dispatching that path runs the registered handler, which reads the whole path for
  \<open>owner\<close> and the empty string for \<open>repo\<close>: the values given to \<open>Generate\<close> are not
  recovered.
\<close>

theorem generate_dispatch_loses_params:
  "Generate go_regexp router_repos ''GET'' ''repo''
       [''owner'' \<mapsto> ''KHighness'', ''repo'' \<mapsto> ''krouter'']
     = Inr (''/repos/KHighness/krouter'', None)
   \<and> ServeHTTP go_regexp not_found_probe router_repos [] (GET ''/repos/KHighness/krouter'')
     = Inr [''/repos/KHighness/krouter'', []]"
  by code_simp

subsection \<open>Generate on an id segment\<close>

text \<open>
  C3. For the route \<open>/user/:id\<close>, \<open>Generate\<close> with \<open>id = abc\<close> returns the path
  \<open>/user/abc\<close> and no error: it checks every named-simple segment against
  \<open>defaultPattern\<close>, also the segment \<open>:id\<close>, for which \<open>matchAndParse\<close> takes \<open>idPattern\<close>.
  The path returned is not found by dispatch.
\<close>

theorem generate_id_accepts_letters:
  "Generate go_regexp router_user_id ''GET'' ''user'' [''id'' \<mapsto> ''abc''] = Inr (''/user/abc'', None)
   \<and> ServeHTTP go_regexp not_found_probe router_user_id [] (GET ''/user/abc'')
     = Inr [''404 page not found'']"
  by code_simp

subsection \<open>matchAndParse accepts whole matches only\<close>

text \<open>
  C5. Whenever \<open>matchAndParse\<close> reports success for a request path and a stored route
  pattern, the expression compiled from the pattern has, on the request path, a match
  whose text is the whole request path; and when the text of the match differs from the
  request path (a prefix or other partial match), \<open>matchAndParse\<close> reports failure.
\<close>

theorem matchAndParse_whole_match:
  "(matchAndParse re requestURL pth = Inr (matchParams, True) \<longrightarrow>
      (\<exists>matchName pattern regex subs.
          build_pattern (Split pth CHR ''/'') [] [] = Inr (matchName, pattern)
        \<and> re (if HasSuffixSlash requestURL then pattern @ ''/'' else pattern) = Some regex
        \<and> regex requestURL = Some (requestURL, subs)))
   \<and> (\<forall>matchName pattern regex whole subs.
          build_pattern (Split pth CHR ''/'') [] [] = Inr (matchName, pattern)
        \<and> re (if HasSuffixSlash requestURL then pattern @ ''/'' else pattern) = Some regex
        \<and> regex requestURL = Some (whole, subs) \<and> whole \<noteq> requestURL
        \<longrightarrow> matchAndParse re requestURL pth = Inr (Map.empty, False))"
  unfolding matchAndParse_def
  by (auto simp: Let_def split: sum.splits prod.splits option.splits if_splits)

theorem matchAndParse_whole_match_witness:
  "matchAndParse go_regexp ''/user/KHighness/profile'' ''user/:user/profile''
     = Inr ([''user'' \<mapsto> ''/user/KHighness/profile''], True)
   \<and> (\<exists>matchName pattern regex subs.
          build_pattern (Split ''user/:user/profile'' CHR ''/'') [] [] = Inr (matchName, pattern)
        \<and> go_regexp (if HasSuffixSlash ''/user/KHighness/profile'' then pattern @ ''/'' else pattern)
            = Some regex
        \<and> regex ''/user/KHighness/profile'' = Some (''/user/KHighness/profile'', subs))
   \<and> build_pattern (Split ''user/:user'' CHR ''/'') [] []
        = Inr ([''user''], ''/user/('' @ defaultPattern @ '')'')
   \<and> map_option (\<lambda>regex. regex ''/user/bob/x'') (go_regexp (''/user/('' @ defaultPattern @ '')''))
        = Some (Some (''/user/bob'', [''bob'']))
   \<and> matchAndParse go_regexp ''/user/bob/x'' ''user/:user'' = Inr (Map.empty, False)"
proof -
  have ok: "matchAndParse go_regexp ''/user/KHighness/profile'' ''user/:user/profile''
              = Inr ([''user'' \<mapsto> ''/user/KHighness/profile''], True)"
    by (simp add: router_eval regexp_eval)
  have built: "build_pattern (Split ''user/:user'' CHR ''/'') [] []
                 = Inr ([''user''], ''/user/('' @ defaultPattern @ '')'')"
    by code_simp
  have found: "map_option (\<lambda>regex. regex ''/user/bob/x'')
                 (go_regexp (''/user/('' @ defaultPattern @ '')''))
               = Some (Some (''/user/bob'', [''bob'']))"
    by code_simp
  have rejected: "matchAndParse go_regexp ''/user/bob/x'' ''user/:user'' = Inr (Map.empty, False)"
    by (simp add: router_eval regexp_eval)
  from ok matchAndParse_whole_match
         [of go_regexp "''/user/KHighness/profile''" "''user/:user/profile''"
             "[''user'' \<mapsto> ''/user/KHighness/profile'']"]
  show ?thesis
    using built found rejected by blast
qed

subsection \<open>Generate without a tree or without the route name\<close>

text \<open>
  C6. \<open>Generate\<close> returns the empty path with \<open>ErrMethodNotFound\<close> when the router has no
  tree for the method, which is so for a method without registrations, and the empty path
  with \<open>ErrRouteNotFound\<close> when the method has a tree in which the route name is not indexed.
\<close>

theorem Generate_not_found:
  "(trees r method = None \<longrightarrow>
      Generate re r method name params = Inr ([], Some ErrMethodNotFound))
   \<and> (\<forall>tree. trees r method = Some tree \<and> routes tree name = None \<longrightarrow>
      Generate re r method name params = Inr ([], Some ErrRouteNotFound))"
  by (simp add: Generate_def)

theorem Generate_not_found_witness:
  "trees router_profile ''POST'' = None
   \<and> Generate go_regexp router_profile ''POST'' ''user_profile'' [''user'' \<mapsto> ''KHighness'']
       = Inr ([], Some ErrMethodNotFound)
   \<and> map_option (\<lambda>tree. routes tree ''user_repository'') (trees router_profile ''GET'') = Some None
   \<and> Generate go_regexp router_profile ''GET'' ''user_repository'' [''user'' \<mapsto> ''KHighness'']
       = Inr ([], Some ErrRouteNotFound)"
proof -
  have no_tree: "trees router_profile ''POST'' = None"
    by code_simp
  have no_route:
    "map_option (\<lambda>tree. routes tree ''user_repository'') (trees router_profile ''GET'') = Some None"
    by code_simp
  then obtain tree where tree: "trees router_profile ''GET'' = Some tree"
    "routes tree ''user_repository'' = None"
    by auto
  show ?thesis
    using no_tree no_route tree
      Generate_not_found [of router_profile "''POST''" go_regexp "''user_profile''"
                             "[''user'' \<mapsto> ''KHighness'']"]
      Generate_not_found [of router_profile "''GET''" go_regexp "''user_repository''"
                             "[''user'' \<mapsto> ''KHighness'']"]
    by blast
qed

subsection \<open>Order of the middleware chain\<close>

text \<open>
  C7. For the middleware list \<open>[A, B]\<close> and any handler, the handler that \<open>handle\<close> runs
  is \<open>B (A handler)\<close>: \<open>B\<close>, the last of the list, is outermost. With probes that write
  their name before calling the next handler, the names are written in the order
  \<open>B\<close>, \<open>A\<close>, handler.
\<close>

theorem handle_chain_last_outermost:
  "handle_chain w req handler [A, B] = B (A handler) req w
   \<and> handle_chain log rq (emit h) [wrap a, wrap b] = log @ [b, a, h]"
  by (simp add: handle_chain_def emit_def wrap_def)

subsection \<open>Outcomes of the exact search\<close>

lemma descend_exact:
  "descend n ks p False =
     (case find (\<lambda>m. path m = p) (walk n ks) of
        Some m \<Rightarrow> [m]
      | None \<Rightarrow> if length (walk n ks) < length ks then [] else collect [last (n # walk n ks)])"
proof (induction ks arbitrary: n)
  case Nil
  show ?case by simp
next
  case (Cons k ks)
  show ?case
  proof (cases "child (children n) k")
    case None
    then show ?thesis by simp
  next
    case (Some c)
    show ?thesis
    proof (cases "p = path c")
      case True
      with Some show ?thesis by simp
    next
      case False
      have entered: "walk n (k # ks) = c # walk c ks"
        using Some by simp
      have "descend n (k # ks) p False = descend c ks p False"
        using Some False by simp
      also have "\<dots> =
          (case find (\<lambda>m. path m = p) (walk c ks) of
             Some m \<Rightarrow> [m]
           | None \<Rightarrow> if length (walk c ks) < length ks then []
                     else collect [last (c # walk c ks)])"
        by (rule Cons.IH)
      finally show ?thesis
        unfolding entered using False by (auto split: option.splits)
    qed
  qed
qed

text \<open>
  C4, as the claim states it, fails: with the routes \<open>/a/b\<close> and \<open>/a/c\<close> registered, the
  exact search for \<open>/a\<close> finds every segment of the request, no node on the way stores
  the request path, and the result is the two end nodes below \<open>a\<close>.
\<close>

theorem Search_exact_two_nodes:
  "length (Search tree_ab_ac ''/a'' False) = 2
   \<and> set (map path (Search tree_ab_ac ''/a'' False)) = {''a/b'', ''a/c''}"
  by (simp add: tree_ab_ac_def router_eval)

text \<open>
  C4, amended. In exact mode \<open>Search\<close> yields exactly one of four outcomes: the root
  alone, when the pattern is the root's stored path; otherwise, with the leading slash
  removed and the descent entering the children named by the segments, the first node
  entered whose stored path is the request path, alone; the empty result, when no node
  entered stores the request path and a segment is missing among the children; and, when
  every segment is found and no node entered stores the request path, the end nodes at
  and below the node reached, level by level.
\<close>

theorem Search_exact_outcomes:
  "Search t pattern False =
     (if pattern = path (root t) then [root t]
      else (let p = trimPathPrefix pattern;
                ks = splitPattern p;
                ns = walk (root t) ks
            in case find (\<lambda>m. path m = p) ns of
                 Some m \<Rightarrow> [m]
               | None \<Rightarrow> if length ns < length ks then [] else collect [last (root t # ns)]))"
  by (simp add: Search_def descend_exact Let_def)

subsection \<open>Routes without a named-simple segment\<close>

lemma build_pattern_no_simple:
  assumes "\<forall>s \<in> set segs. s \<noteq> [] \<longrightarrow> hd s \<noteq> CHR '':''"
      and "build_pattern segs names pat = Inr (names', pat')"
  shows "names' = names"
  using assms
proof (induction segs arbitrary: pat)
  case Nil
  then show ?case by simp
next
  case (Cons str list)
  from Cons.prems(1) have rest: "\<forall>s \<in> set list. s \<noteq> [] \<longrightarrow> hd s \<noteq> CHR '':''"
    by simp
  from Cons.prems(1) have this_one: "str \<noteq> [] \<Longrightarrow> hd str \<noteq> CHR '':''"
    by simp
  show ?case
  proof (cases "str = []")
    case True
    with Cons.prems(2) Cons.IH [OF rest] show ?thesis by simp
  next
    case False
    with this_one have "hd str \<noteq> CHR '':''" by simp
    with False Cons.prems(2) Cons.IH [OF rest] show ?thesis
      by (simp add: Let_def split: if_splits)
  qed
qed

lemma try_nodes_append:
  "try_nodes re url req w (xs @ ys) =
     (case try_nodes re url req w xs of
        Inr None \<Rightarrow> try_nodes re url req w ys
      | other \<Rightarrow> other)"
proof (induction xs)
  case Nil
  show ?case by simp
next
  case (Cons node nodes)
  then show ?case
    by (simp split: option.splits sum.splits prod.splits)
qed

lemma matchAndParse_panics:
  assumes no_simple: "\<forall>s \<in> set (Split pth CHR ''/''). s \<noteq> [] \<longrightarrow> hd s \<noteq> CHR '':''"
      and built: "build_pattern (Split pth CHR ''/'') [] [] = Inr (matchName, pattern)"
      and compiled: "re (if HasSuffixSlash requestURL then pattern @ ''/'' else pattern) = Some regex"
      and whole: "regex requestURL = Some (requestURL, subs)"
  shows "matchAndParse re requestURL pth = Inl IndexOutOfRange"
proof -
  have "matchName = []"
    using build_pattern_no_simple [OF no_simple built] .
  with built compiled whole show ?thesis
    by (simp add: matchAndParse_def Let_def)
qed


text \<open>
  C9, as the claim states it, fails for dispatch: with the routes \<open>/a/{x:\w+}\<close> and
  \<open>/a/b/c\<close> registered, the request path \<open>/a/b\<close> is matched as a whole by the
  expression compiled from the first route, and \<open>matchAndParse\<close> on the two panics; but
  the exact search for \<open>/a/b\<close> finds both segments and returns the end node below
  \<open>b\<close>, so \<open>ServeHTTP\<close> never calls \<open>matchAndParse\<close> and answers not found.
\<close>

theorem dispatch_shadowed_not_found:
  "ServeHTTP go_regexp not_found_probe router_shadowed [] (GET ''/a/b'')
     = Inr [''404 page not found'']
   \<and> the (go_regexp (''/a/('' @ word_plus @ '')'')) ''/a/b'' = Some (''/a/b'', [''b''])
   \<and> matchAndParse go_regexp ''/a/b'' (''a/{x:'' @ word_plus @ ''}'') = Inl IndexOutOfRange"
  by (simp add: router_shadowed_def router_eval regexp_eval probe_eval)


text \<open>
  C9, amended. For a stored route pattern without a named-simple segment (so for one
  whose dynamic segments are all of the form \<open>{name:regex}\<close>) and a request path that
  the compiled expression matches as a whole, \<open>matchAndParse\<close> panics with an index out
  of range, on the empty list of capture names. \<open>ServeHTTP\<close> panics with it, the handler
  not run, whenever it comes to that call: the exact search returns no node, and in the
  second search the node of the route follows only nodes that the loop passes over. The
  panic leaves \<open>ServeHTTP\<close> unless a \<open>PanicHandler\<close> is set, which then receives it.
\<close>

theorem matchAndParse_no_names_panics:
  assumes no_simple: "\<forall>s \<in> set (Split pth CHR ''/''). s \<noteq> [] \<longrightarrow> hd s \<noteq> CHR '':''"
      and built: "build_pattern (Split pth CHR ''/'') [] [] = Inr (matchName, pattern)"
      and compiled: "re (if HasSuffixSlash requestURL then pattern @ ''/'' else pattern) = Some regex"
      and whole: "regex requestURL = Some (requestURL, subs)"
  shows "matchAndParse re requestURL pth = Inl IndexOutOfRange
       \<and> (\<forall>http_NotFound r w req tree skipped node rest h.
              URLPath req = requestURL \<and> trees r (Method req) = Some tree
            \<and> Search tree requestURL False = []
            \<and> Search tree (Split requestURL CHR ''/'' ! 1) True = skipped @ node # rest
            \<and> try_nodes re requestURL req w skipped = Inr None
            \<and> handle node = Some h \<and> path node = pth \<and> pth \<noteq> requestURL
            \<longrightarrow> ServeHTTP re http_NotFound r w req =
                  (case PanicHandler r of
                     None \<Rightarrow> Inl IndexOutOfRange
                   | Some ph \<Rightarrow> Inr (ph req IndexOutOfRange w)))"
proof (intro conjI allI impI)
  show panics: "matchAndParse re requestURL pth = Inl IndexOutOfRange"
    using no_simple built compiled whole
    by (rule matchAndParse_panics [where re = re and regex = regex])
  fix http_NotFound :: "'a HandlerFunc" and r :: "'a Router" and w :: 'a and req tree skipped
    and node :: "('a HandlerFunc, 'a Middleware) Node" and rest h
  assume reach: "URLPath req = requestURL \<and> trees r (Method req) = Some tree
            \<and> Search tree requestURL False = []
            \<and> Search tree (Split requestURL CHR ''/'' ! 1) True = skipped @ node # rest
            \<and> try_nodes re requestURL req w skipped = Inr None
            \<and> handle node = Some h \<and> path node = pth \<and> pth \<noteq> requestURL"
  have "try_nodes re requestURL req w (node # rest) = Inl IndexOutOfRange"
    using reach panics by simp
  then have "try_nodes re requestURL req w (skipped @ node # rest) = Inl IndexOutOfRange"
    using reach by (simp add: try_nodes_append)
  then have "serve re http_NotFound r w req = Inl IndexOutOfRange"
    using reach by (simp add: serve_def Let_def)
  then show "ServeHTTP re http_NotFound r w req =
                  (case PanicHandler r of
                     None \<Rightarrow> Inl IndexOutOfRange
                   | Some ph \<Rightarrow> Inr (ph req IndexOutOfRange w))"
    by (simp add: ServeHTTP_def)
qed

theorem matchAndParse_no_names_panics_witness:
  "matchAndParse go_regexp ''/user/bob'' (''user/{name:'' @ word_plus @ ''}'') = Inl IndexOutOfRange
   \<and> ServeHTTP go_regexp not_found_probe router_url_regex [] (GET ''/user/bob'')
       = Inl IndexOutOfRange"
proof -
  define regex where "regex = the (go_regexp (''/user/('' @ word_plus @ '')''))"
  define tree where "tree = the (trees router_url_regex ''GET'')"
  define node where "node = hd (Search tree ''user'' True)"
  have no_simple:
    "\<forall>s \<in> set (Split (''user/{name:'' @ word_plus @ ''}'') CHR ''/''). s \<noteq> [] \<longrightarrow> hd s \<noteq> CHR '':''"
    by (simp add: word_plus_def)
  have built: "build_pattern (Split (''user/{name:'' @ word_plus @ ''}'') CHR ''/'') [] []
                 = Inr ([], ''/user/('' @ word_plus @ '')'')"
    by (simp add: word_plus_def)
  have compiled:
    "go_regexp (if HasSuffixSlash ''/user/bob'' then (''/user/('' @ word_plus @ '')'') @ ''/''
                else ''/user/('' @ word_plus @ '')'') = Some regex"
    unfolding regex_def by (simp add: HasSuffixSlash_def word_plus_def regexp_eval)
  have whole: "regex ''/user/bob'' = Some (''/user/bob'', [''bob''])"
    unfolding regex_def by (simp add: word_plus_def regexp_eval)
  note panics = matchAndParse_no_names_panics
                  [where re = go_regexp and regex = regex, OF no_simple built compiled whole]
  have tree: "trees router_url_regex (Method (GET ''/user/bob'')) = Some tree"
    unfolding tree_def by (simp add: router_url_regex_def router_eval probe_eval)
  have exact: "Search tree ''/user/bob'' False = []"
    unfolding tree_def by (simp add: router_url_regex_def router_eval probe_eval)
  have scan: "Search tree (Split ''/user/bob'' CHR ''/'' ! 1) True = [] @ node # []"
    unfolding node_def tree_def by (simp add: router_url_regex_def router_eval probe_eval)
  have node: "handle node = Some (param_probe [''name''])"
      "path node = ''user/{name:'' @ word_plus @ ''}''"
    unfolding node_def tree_def by (simp_all add: router_url_regex_def router_eval word_plus_def)
  have different: "''user/{name:'' @ word_plus @ ''}'' \<noteq> ''/user/bob''"
    by simp
  have none: "PanicHandler router_url_regex = None"
    by (simp add: router_url_regex_def router_eval)
  have "ServeHTTP go_regexp not_found_probe router_url_regex [] (GET ''/user/bob'')
          = (case PanicHandler router_url_regex of
               None \<Rightarrow> Inl IndexOutOfRange
             | Some ph \<Rightarrow> Inr (ph (GET ''/user/bob'') IndexOutOfRange []))"
    using panics [THEN conjunct2, rule_format,
                  of "GET ''/user/bob''" router_url_regex tree "[]" node "[]" "[]"
                     "param_probe [''name'']" not_found_probe]
          tree exact scan node different
    by (simp add: GET_def)
  with none have served:
    "ServeHTTP go_regexp not_found_probe router_url_regex [] (GET ''/user/bob'')
       = Inl IndexOutOfRange"
    by simp
  from panics [THEN conjunct1] served show ?thesis
    by (rule conjI)
qed

subsection \<open>Generate on a stored pattern with an empty segment\<close>

lemma gen_segments_append:
  "gen_segments re params (xs @ ys) acc =
     (case gen_segments re params xs acc of
        Inr (Inr segments) \<Rightarrow> gen_segments re params ys segments
      | failed \<Rightarrow> failed)"
proof (induction xs arbitrary: acc)
  case Nil
  show ?case by simp
next
  case (Cons segment list)
  show ?case
  proof (cases segment)
    case Nil
    then show ?thesis by simp
  next
    case (Cons c cs)
    then show ?thesis
      by (simp add: Cons.IH Let_def split: option.splits)
  qed
qed

text \<open>
  C10, as the claim states it, fails: the route \<open>/user/:name/\<close> is stored as
  \<open>user/:name/\<close>, whose last segment is empty, and \<open>Generate\<close> without a value for \<open>name\<close>
  returns \<open>ErrGenerateParameters\<close>, a recoverable error, at the segment \<open>:name\<close>, before
  it comes to the empty segment.
\<close>

theorem Generate_empty_segment_error:
  "Generate go_regexp router_trailing ''GET'' ''user'' Map.empty
     = Inr ([], Some ErrGenerateParameters)"
  by (simp add: router_trailing_def router_eval regexp_eval probe_eval)

text \<open>
  C10, amended. For a named route whose stored pattern contains an empty segment,
  \<open>Generate\<close> for that route name panics with an index out of range, at the first
  character of the first empty segment, whenever the loop takes every segment before it
  (each is a literal that does not end in a closing brace, or a parameter segment whose
  expression compiles and finds a match in the value supplied).
\<close>

theorem Generate_empty_segment_panics:
  assumes "trees r method = Some tree"
      and "routes tree name = Some ref"
      and "deref (root tree) ref = Some route"
      and "splitPattern (path route) = before @ [] # rest"
      and "gen_segments re params before [] = Inr (Inr segments)"
  shows "Generate re r method name params = Inl IndexOutOfRange"
proof -
  have "gen_segments re params (before @ [] # rest) [] = gen_segments re params ([] # rest) segments"
    using assms(5) by (simp add: gen_segments_append)
  then have "gen_segments re params (splitPattern (path route)) [] = Inl IndexOutOfRange"
    using assms(4) by simp
  then show ?thesis
    using assms(1-3) by (simp add: Generate_def)
qed


theorem Generate_empty_segment_panics_witness:
  "gen_segments go_regexp [''name'' \<mapsto> ''bob''] [''user'', '':name''] [] = Inr (Inr [''user'', ''bob''])
   \<and> Generate go_regexp router_trailing ''GET'' ''user'' [''name'' \<mapsto> ''bob'']
       = Inl IndexOutOfRange"
proof -
  define tree where "tree = the (trees router_trailing ''GET'')"
  have tree: "trees router_trailing ''GET'' = Some tree"
    unfolding tree_def by (simp add: router_trailing_def router_eval)
  have ref: "routes tree ''user'' = Some [''user'', '':name'', []]"
    unfolding tree_def by (simp add: router_trailing_def router_eval)
  have "map_option path (deref (root tree) [''user'', '':name'', []]) = Some ''user/:name/''"
    unfolding tree_def by (simp add: router_trailing_def router_eval)
  then obtain route where route: "deref (root tree) [''user'', '':name'', []] = Some route"
      and stored: "path route = ''user/:name/''"
    by auto
  have split: "splitPattern (path route) = [''user'', '':name''] @ [] # []"
    by (simp add: stored splitPattern_def)
  have before: "gen_segments go_regexp [''name'' \<mapsto> ''bob''] [''user'', '':name''] []
                  = Inr (Inr [''user'', ''bob''])"
    by (simp add: router_eval regexp_eval)
  from before Generate_empty_segment_panics [OF tree ref route split before]
  show ?thesis
    by (rule conjI)
qed

subsection \<open>The route name stays\<close>

lemma child_key: "child cs k = Some c \<Longrightarrow> key c = k"
  by (induction cs) (auto split: if_splits)

lemma child_set_child: "key x = k \<Longrightarrow> child (set_child cs k x) k = Some x"
  by (induction cs) auto

lemma key_descend_reg: "key (descend_reg ks pat h mw n) = key n"
  by (cases ks) (simp_all add: finish_def Let_def)

lemma deref_descend_reg:
  "\<exists>node. deref (descend_reg ks pat h mw n) ks = Some node
        \<and> handle node = Some h \<and> isEnd node \<and> path node = pat"
proof (induction ks arbitrary: n)
  case Nil
  show ?case by (simp add: finish_def)
next
  case (Cons k ks)
  define entered where "entered =
     (case child (children n) k of
        Some c \<Rightarrow> c
      | None \<Rightarrow>
          (let fresh = NewNode k (depth n + 1) :: ('a, 'b) Node
           in if length mw > 0
              then Node (key fresh) (path fresh) (handle fresh) (depth fresh)
                     (children fresh) (isEnd fresh) (middleware fresh @ mw)
              else fresh))"
  have key_entered: "key entered = k"
    unfolding entered_def by (auto simp: NewNode_def Let_def dest: child_key split: option.splits)
  have unfold: "descend_reg (k # ks) pat h mw n =
      Node (key n) (path n) (handle n) (depth n)
        (set_child (children n) k (descend_reg ks pat h mw entered)) (isEnd n) (middleware n)"
    unfolding entered_def by (simp add: Let_def)
  have "child (set_child (children n) k (descend_reg ks pat h mw entered)) k
          = Some (descend_reg ks pat h mw entered)"
    by (rule child_set_child) (simp add: key_descend_reg key_entered)
  then have "deref (descend_reg (k # ks) pat h mw n) (k # ks)
               = deref (descend_reg ks pat h mw entered) ks"
    unfolding unfold by simp
  with Cons.IH [of entered] show ?case by simp
qed

lemma Register_binds:
  assumes "routeName (parameters t) = name" and "name \<noteq> []"
  shows "routeName (parameters (Register t pth h mw)) = name
       \<and> (\<exists>ref node. routes (Register t pth h mw) name = Some ref
             \<and> deref (root (Register t pth h mw)) ref = Some node
             \<and> handle node = Some h \<and> isEnd node)"
proof (cases "pth \<noteq> key (root t)")
  case True
  obtain node where "deref (descend_reg (splitPattern (trimPathPrefix pth)) (trimPathPrefix pth) h mw (root t))
                        (splitPattern (trimPathPrefix pth)) = Some node"
      "handle node = Some h" "isEnd node"
    using deref_descend_reg [of "splitPattern (trimPathPrefix pth)" "trimPathPrefix pth" h mw "root t"]
    by auto
  with assms True show ?thesis
    by (simp add: Register_def)
next
  case False
  obtain node where "deref (descend_reg [] pth h mw (root t)) [] = Some node"
      "handle node = Some h" "isEnd node"
    using deref_descend_reg [of "[]" pth h mw "root t"]
    by auto
  with assms False show ?thesis
    by (simp add: Register_def)
qed

lemma Handle_binds:
  assumes "routeName (parameters_r r) = name" and "name \<noteq> []"
      and "Handle r method pth h = Inr r'"
  shows "routeName (parameters_r r') = name
       \<and> (\<exists>tree ref node. trees r' method = Some tree
             \<and> routeName (parameters tree) = name
             \<and> routes tree name = Some ref
             \<and> deref (root tree) ref = Some node
             \<and> handle node = Some h \<and> isEnd node)"
proof -
  define tree where "tree = (case trees r method of Some t \<Rightarrow> t | None \<Rightarrow> NewTree)"
  define tree' where "tree' = tree \<lparr> parameters := (parameters tree) \<lparr> routeName := name \<rparr> \<rparr>"
  define pth' where "pth' = (if prefix r \<noteq> [] then prefix r @ ''/'' @ pth else pth)"
  have named: "routeName (parameters tree') = name"
    by (simp add: tree'_def)
  have r': "r' = r \<lparr> trees := (trees r)(method \<mapsto> Register tree' pth' h (middleware_r r)) \<rparr>"
    using assms unfolding Handle_def tree_def tree'_def pth'_def
    by (simp add: Let_def split: if_splits)
  from Register_binds [OF named assms(2), of pth' h "middleware_r r"] assms(1)
  show ?thesis
    unfolding r' by simp
qed


lemma register_all_append:
  "register_all r (xs @ ys) =
     (case register_all r xs of
        Inl p \<Rightarrow> Inl p
      | Inr r' \<Rightarrow> register_all r' ys)"
proof (induction xs arbitrary: r)
  case Nil
  show ?case by simp
next
  case (Cons reg xs)
  obtain m pth h nm where reg: "reg = (m, pth, h, nm)"
    by (cases reg) auto
  show ?case
    unfolding reg by (simp add: Cons.IH split: sum.splits)
qed

lemma name_route_same:
  assumes "routeName (parameters_r r) = name" and "nm = None \<or> nm = Some name"
  shows "routeName (parameters_r (case nm of None \<Rightarrow> r | Some n \<Rightarrow> name_route r n)) = name"
  using assms by (auto simp: name_route_def)

lemma register_all_keeps:
  assumes "routeName (parameters_r r1) = name" and "name \<noteq> []"
      and "\<forall>reg \<in> set regs. snd (snd (snd reg)) = None \<or> snd (snd (snd reg)) = Some name"
      and "register_all r1 regs = Inr r"
  shows "routeName (parameters_r r) = name"
  using assms
proof (induction regs arbitrary: r1)
  case Nil
  then show ?case by simp
next
  case (Cons reg regs)
  obtain m pth h nm where reg: "reg = (m, pth, h, nm)"
    by (cases reg) auto
  from Cons.prems(3) reg have nm: "nm = None \<or> nm = Some name"
    by simp
  from Cons.prems(4) reg obtain r2
    where step: "Handle (case nm of None \<Rightarrow> r1 | Some n \<Rightarrow> name_route r1 n) m pth h = Inr r2"
      and rest: "register_all r2 regs = Inr r"
    by (auto split: sum.splits)
  have "routeName (parameters_r r2) = name"
    using Handle_binds [OF name_route_same [OF Cons.prems(1) nm] Cons.prems(2) step] by simp
  moreover from Cons.prems(3)
  have "\<forall>reg \<in> set regs. snd (snd (snd reg)) = None \<or> snd (snd (snd reg)) = Some name"
    by simp
  ultimately show ?case
    using Cons.IH [of r2] Cons.prems(2) rest by simp
qed

text \<open>
  C8, as the claim states it, fails for a later registration that supplies another name:
  after the two named registrations of the repository's example the router stores the
  second name, and the first name is still bound to the node of the first route, not to
  the node registered last.
\<close>

theorem routeName_replaced:
  "routeName (parameters_r router_named) = ''user_repository''
   \<and> routes (the (trees router_named ''GET'')) ''user_profile''
       = Some [''user'', '':user'', ''profile'']
   \<and> routes (the (trees router_named ''GET'')) ''user_repository''
       = Some [''user'', ''{user:'' @ word_plus @ ''}'', ''{repository:'' @ word_plus @ ''}'']"
  by (simp add: router_named_def router_eval probe_eval)

text \<open>
  C8, amended. After a named registration with a non-empty name, every later
  registration through that router that supplies no name, or the same name, leaves the
  stored \<open>routeName\<close> as it is and binds that name, in the tree of its method, to the node
  it registers; the tree keeps the name as well, so that every \<open>Register\<close> on a tree
  holding the name binds it to the node registered.
\<close>

theorem routeName_sticky:
  assumes named: "GetAndName r0 p0 h0 name = Inr r1 \<or> PostAndName r0 p0 h0 name = Inr r1
                \<or> DeleteAndName r0 p0 h0 name = Inr r1 \<or> PutAndName r0 p0 h0 name = Inr r1
                \<or> PatchAndName r0 p0 h0 name = Inr r1 \<or> HEADAndName r0 p0 h0 name = Inr r1"
      and nonempty: "name \<noteq> []"
      and later: "\<forall>reg \<in> set (regs @ [(method, pth, h, nm)]).
                    snd (snd (snd reg)) = None \<or> snd (snd (snd reg)) = Some name"
      and run: "register_all r1 (regs @ [(method, pth, h, nm)]) = Inr r"
  shows "routeName (parameters_r r) = name
       \<and> (\<exists>tree ref node. trees r method = Some tree
             \<and> routeName (parameters tree) = name
             \<and> routes tree name = Some ref
             \<and> deref (root tree) ref = Some node
             \<and> handle node = Some h \<and> isEnd node)
       \<and> (\<forall>t pth' h' mw. routeName (parameters t) = name \<longrightarrow>
             routeName (parameters (Register t pth' h' mw)) = name
           \<and> (\<exists>ref node. routes (Register t pth' h' mw) name = Some ref
                 \<and> deref (root (Register t pth' h' mw)) ref = Some node
                 \<and> handle node = Some h' \<and> isEnd node))"
proof -
  have stored: "routeName (parameters_r (name_route r0 name)) = name"
    by (simp add: name_route_def)
  from named obtain m0 where "Handle (name_route r0 name) m0 p0 h0 = Inr r1"
    unfolding GetAndName_def PostAndName_def DeleteAndName_def PutAndName_def PatchAndName_def
      HEADAndName_def Get_def Post_def Delete_def Put_def Patch_def Head_def
    by blast
  from Handle_binds [OF stored nonempty this]
  have start: "routeName (parameters_r r1) = name"
    by simp
  from run obtain r2 where before: "register_all r1 regs = Inr r2"
      and last: "register_all r2 [(method, pth, h, nm)] = Inr r"
    by (auto simp: register_all_append split: sum.splits)
  from later have regs_ok:
    "\<forall>reg \<in> set regs. snd (snd (snd reg)) = None \<or> snd (snd (snd reg)) = Some name"
    and nm: "nm = None \<or> nm = Some name"
    by simp_all
  have kept: "routeName (parameters_r r2) = name"
    by (rule register_all_keeps [OF start nonempty regs_ok before])
  from last have step:
    "Handle (case nm of None \<Rightarrow> r2 | Some n \<Rightarrow> name_route r2 n) method pth h = Inr r"
    by (auto split: sum.splits)
  note bound = Handle_binds [OF name_route_same [OF kept nm] nonempty step]
  have tree_level: "\<forall>t pth' h' mw. routeName (parameters t) = name \<longrightarrow>
             routeName (parameters (Register t pth' h' mw)) = name
           \<and> (\<exists>ref node. routes (Register t pth' h' mw) name = Some ref
                 \<and> deref (root (Register t pth' h' mw)) ref = Some node
                 \<and> handle node = Some h' \<and> isEnd node)"
    using Register_binds [OF _ nonempty] by blast
  from bound tree_level show ?thesis
    by blast
qed

theorem routeName_sticky_witness:
  "routeName (parameters_r router_later) = ''user_profile''
   \<and> (\<exists>tree ref node. trees router_later ''POST'' = Some tree
         \<and> routeName (parameters tree) = ''user_profile''
         \<and> routes tree ''user_profile'' = Some ref
         \<and> deref (root tree) ref = Some node
         \<and> handle node = Some (emit ''users'') \<and> isEnd node)"
proof -
  have first: "GetAndName New ''/user/:user/profile'' (param_probe [''user'']) ''user_profile''
                 = Inr router_profile"
    by (simp add: router_profile_def router_eval)
  have nonempty: "''user_profile'' \<noteq> []"
    by simp
  have later: "\<forall>reg \<in> set ([(''GET'', ''/about'', emit ''about'', None)]
                            @ [(''POST'', ''/users'', emit ''users'', None)]).
                 snd (snd (snd reg)) = None \<or> snd (snd (snd reg)) = Some ''user_profile''"
    by simp
  have run: "register_all router_profile
               ([(''GET'', ''/about'', emit ''about'', None)]
                @ [(''POST'', ''/users'', emit ''users'', None)]) = Inr router_later"
    by (simp add: router_later_def router_profile_def router_eval)
  from routeName_sticky [OF disjI1 [OF first] nonempty later run]
  show ?thesis
    by blast
qed

end
